theory Spec2Isabelle
  imports Main "HOL-Library.Sublist"
begin

section \<open>Text: Python strings, whitespace and lower-casing\<close>

text \<open>
  A Python \<open>str\<close> is a sequence of code points. The model covers the strings whose code
  points are below 256 (ASCII and the Latin-1 supplement): a \<^typ>\<open>char\<close> is one such code
  point, read by \<^const>\<open>of_char\<close>. On that range \<open>str.lower\<close> works character by
  character and the regular expression class \<open>\s\<close> (on a \<open>str\<close> pattern) is the set below.
\<close>

definition isspace :: "char \<Rightarrow> bool" where
  \<comment> \<open>\<open>\s\<close>: tab, newline, vertical tab, form feed, carriage return, the separators
      0x1C..0x1F, the space, NEL (0x85) and the no-break space (0xA0).\<close>
  "isspace c =
     (let n = (of_char c :: nat)
      in (9 \<le> n \<and> n \<le> 13) \<or> (28 \<le> n \<and> n \<le> 32) \<or> n = 133 \<or> n = 160)"

definition char_lower :: "char \<Rightarrow> char" where
  \<comment> \<open>\<open>A..Z\<close> and the Latin-1 capitals 0xC0..0xDE (without the multiplication sign 0xD7)
      move up by 32; every other code point below 256 is unchanged.\<close>
  "char_lower c =
     (let n = (of_char c :: nat)
      in if (65 \<le> n \<and> n \<le> 90) \<or> (192 \<le> n \<and> n \<le> 222 \<and> n \<noteq> 215)
         then char_of (n + 32) else c)"

definition lower :: "string \<Rightarrow> string" where
  \<comment> \<open>\<open>text.lower()\<close>\<close>
  "lower text = map char_lower text"

function sub_spaces :: "string \<Rightarrow> string" where
  \<comment> \<open>\<open>re.sub(r'\s+', ' ', text)\<close>: every maximal run of whitespace becomes one space.\<close>
  "sub_spaces [] = []"
| "sub_spaces (c # cs) =
     (if isspace c then CHR '' '' # sub_spaces (dropWhile isspace cs)
      else c # sub_spaces cs)"
  by pat_completeness auto
termination
  by (relation "measure length") (auto simp: length_dropWhile_le less_Suc_eq_le)

definition normalize_text :: "string \<Rightarrow> string" where
  \<comment> \<open>\<open>return re.sub(r'\s+', ' ', text).lower()\<close>\<close>
  "normalize_text text = lower (sub_spaces text)"

section \<open>The registry of document types\<close>

text \<open>
  \<open>DOCUMENT_KEYWORDS\<close> is a dictionary literal; the association list keeps its order, and
  \<^const>\<open>map_of\<close> is the lookup. The apostrophe of \<open>driver's license\<close> is code point 0x27.
\<close>

definition DOCUMENT_KEYWORDS :: "(string \<times> string list) list" where
  "DOCUMENT_KEYWORDS =
    [(''sss-gsis-umid'', [''unified multi-purpose id'', ''multi-purpose'',
         ''pambansang pagkakakilanlan'', ''philippine identification card'', ''gsis'', ''sss'']),
     (''philid'', [''philippine identification card'', ''pambansang pagkakakilanlan'']),
     (''business-permit'', [''business permit'']),
     (''articles-of-incorporation'', [''articles of incorporation'', ''incorporated'']),
     (''dti-license'', [''department of trade and industry'', ''dti certificate'']),
     (''bir-form'', [''bir form'', ''bureau of internal revenue'']),
     (''amended-gis'', [''amended general information sheet'', ''amended gis'']),
     (''sec'', [''securities and exchange commission'']),
     (''passport'', [''passport'', ''republic of the philippines passport'']),
     (''drivers-license'', [''driver'' @ [CHR 0x27] @ ''s license'', ''dln'']),
     (''tin-id'', [''taxpayer identification number'', ''tin id''])]"

definition all_keywords :: "string list" where
  \<comment> \<open>every keyword of every registered type, in registry order\<close>
  "all_keywords = concat (map snd DOCUMENT_KEYWORDS)"

section \<open>Exceptions, the file system and the external collaborators\<close>

datatype exn =
  HTTPException nat string  \<comment> \<open>\<open>HTTPException(status_code, detail)\<close>\<close>
| Error string  \<comment> \<open>any other exception: decoding, parsing, OCR, I/O\<close>

type_synonym path = string
type_synonym bytes = string

record pil_image =
  width :: nat
  height :: nat
  mode :: string
  data :: bytes

record page =
  extract_text :: "exn + string option"  \<comment> \<open>\<open>page.extract_text()\<close>: a string or \<open>None\<close>\<close>
  to_image :: "nat \<Rightarrow> pil_image"  \<comment> \<open>\<open>page.to_image(resolution=r).original\<close>\<close>

text \<open>
  The instrumentation of a run: which temporary files were created and removed, and which
  extraction path was entered.
\<close>

datatype event =
  TempCreated path
| TempRemoved path
| ImageExtraction path
| PdfExtraction path

record world =
  files :: "path \<rightharpoonup> bytes"
  trace :: "event list"

text \<open>
  The libraries behind the service (PIL, pytesseract, pdfplumber, tempfile and the text of an
  exception) are parameters, and each of their calls may raise.
  \<^item> \<open>temp_name\<close> is \<open>NamedTemporaryFile(delete=False, suffix=...)\<close>: it receives the
    file system and the upload's file name, whose \<open>os.path.splitext\<close> suffix it keeps,
    and returns the name of the file it created, or the exception it raised (no file is
    created then).
  \<^item> \<open>write_upload\<close> is \<open>tmp.write(file.file.read())\<close> together with the closing of the
    file at the end of the \<open>with\<close> block: \<open>None\<close> when all of it succeeds, otherwise the
    exception and the bytes that reached the file.
  \<^item> \<open>remove_file\<close> is \<open>os.remove\<close>: \<open>None\<close> when the file was removed, otherwise the
    exception, the file being left in place.
\<close>

record env =
  temp_name :: "(path \<rightharpoonup> bytes) \<Rightarrow> string \<Rightarrow> exn + path"
  write_upload :: "path \<Rightarrow> bytes \<Rightarrow> (exn \<times> bytes) option"
  remove_file :: "path \<Rightarrow> exn option"
  image_open :: "bytes \<Rightarrow> exn + pil_image"
  convert :: "pil_image \<Rightarrow> string \<Rightarrow> pil_image"
  autocontrast :: "pil_image \<Rightarrow> pil_image"
  resize :: "pil_image \<Rightarrow> nat \<times> nat \<Rightarrow> pil_image"
  image_to_string :: "pil_image \<Rightarrow> exn + string"
  pdf_open :: "bytes \<Rightarrow> exn + page list"
  str_exn :: "exn \<Rightarrow> string"

record upload =
  filename :: string
  content :: bytes

definition read_file :: "world \<Rightarrow> path \<Rightarrow> exn + bytes" where
  "read_file w p = (case files w p of None \<Rightarrow> Inl (Error ''No such file'') | Some b \<Rightarrow> Inr b)"

definition log_event :: "event \<Rightarrow> world \<Rightarrow> world" where
  "log_event ev w = w\<lparr>trace := trace w @ [ev]\<rparr>"

section \<open>Extraction\<close>

definition preprocess_image :: "env \<Rightarrow> world \<Rightarrow> path \<Rightarrow> exn + pil_image" where
  "preprocess_image env w p =
     (case read_file w p of Inl e \<Rightarrow> Inl e
      | Inr b \<Rightarrow>
         (case image_open env b of Inl e \<Rightarrow> Inl e
          | Inr img0 \<Rightarrow>
              let img1 = convert env img0 ''L'';
                  img2 = autocontrast env img1
              in Inr (resize env img2 (width img2 * 2, height img2 * 2))))"

definition extract_text_from_image :: "env \<Rightarrow> world \<Rightarrow> path \<Rightarrow> (exn + string) \<times> world" where
  "extract_text_from_image env w p =
     (let w1 = log_event (ImageExtraction p) w
      in (case preprocess_image env w1 p of Inl e \<Rightarrow> (Inl e, w1)
          | Inr img \<Rightarrow> (image_to_string env img, w1)))"

text \<open>
  The loop over \<open>pdf.pages\<close>, with the accumulator \<open>text\<close>. \<open>if page_text:\<close> holds for
  a non-empty string only; \<open>None\<close> and the empty string take the OCR branch.
\<close>

fun pdf_pages_loop :: "env \<Rightarrow> string \<Rightarrow> page list \<Rightarrow> exn + string" where
  "pdf_pages_loop env text [] = Inr text"
| "pdf_pages_loop env text (pg # pages) =
     (case extract_text pg of Inl e \<Rightarrow> Inl e
      | Inr (Some (c # cs)) \<Rightarrow> pdf_pages_loop env (text @ (c # cs) @ [CHR 0x0A]) pages
      | Inr _ \<Rightarrow>
          (case image_to_string env (to_image pg 300) of Inl e \<Rightarrow> Inl e
           | Inr ocr \<Rightarrow> pdf_pages_loop env (text @ ocr @ [CHR 0x0A]) pages))"

definition extract_text_from_pdf :: "env \<Rightarrow> world \<Rightarrow> path \<Rightarrow> (exn + string) \<times> world" where
  "extract_text_from_pdf env w p =
     (let w1 = log_event (PdfExtraction p) w
      in (case read_file w1 p of Inl e \<Rightarrow> (Inl e, w1)
          | Inr b \<Rightarrow>
             (case pdf_open env b of Inl e \<Rightarrow> (Inl e, w1)
              | Inr pages \<Rightarrow> (pdf_pages_loop env [] pages, w1))))"

section \<open>The file dispatcher\<close>

definition endswith :: "string \<Rightarrow> string list \<Rightarrow> bool" where
  \<comment> \<open>\<open>s.endswith((e1, e2, ...))\<close>\<close>
  "endswith s exts = list_ex (\<lambda>e. suffix e s) exts"

text \<open>
  The temporary file is created and written before the \<open>try\<close>: an exception there leaves
  \<open>process_file\<close> at once, without the \<open>finally\<close>. Inside the \<open>try\<close>, the \<open>finally\<close>
  runs \<open>os.remove\<close> on every way out, and an exception of \<open>os.remove\<close> replaces the
  result.
\<close>

definition process_file :: "env \<Rightarrow> world \<Rightarrow> upload \<Rightarrow> (exn + string) \<times> world" where
  "process_file env w file =
     (let ext = lower (filename file)
      in (case temp_name env (files w) (filename file) of
            Inl e \<Rightarrow> (Inl e, w)
          | Inr tmp_path \<Rightarrow>
              let w0 = log_event (TempCreated tmp_path) (w\<lparr>files := (files w)(tmp_path \<mapsto> [])\<rparr>)
              in (case write_upload env tmp_path (content file) of
                    Some (e, written) \<Rightarrow> (Inl e, w0\<lparr>files := (files w0)(tmp_path \<mapsto> written)\<rparr>)
                  | None \<Rightarrow>
                      let w1 = w0\<lparr>files := (files w0)(tmp_path \<mapsto> content file)\<rparr>;
                          (r, w2) =
                            (if endswith ext [''.png'', ''.jpg'', ''.jpeg'']
                             then extract_text_from_image env w1 tmp_path
                             else if endswith ext [''.pdf'']
                             then extract_text_from_pdf env w1 tmp_path
                             else (Inl (HTTPException 400 ''Unsupported file format''), w1))
                      in (case remove_file env tmp_path of
                            Some e \<Rightarrow> (Inl e, w2)
                          | None \<Rightarrow>
                              (r, log_event (TempRemoved tmp_path)
                                    (w2\<lparr>files := (files w2)(tmp_path := None)\<rparr>))))))"

section \<open>The request handler\<close>

record response =
  is_valid :: bool
  message :: string
  debug_text_snippet :: string

definition truthy :: "string option \<Rightarrow> bool" where
  \<comment> \<open>Python's truth value of \<open>None\<close> or a string\<close>
  "truthy x = (case x of None \<Rightarrow> False | Some s \<Rightarrow> s \<noteq> [])"

definition detected :: "string \<Rightarrow> string" where
  \<comment> \<open>the f-string: the keyword between double quotes, then \<open> detected.\<close>\<close>
  "detected kw = [CHR 0x22] @ kw @ [CHR 0x22] @ '' detected.''"

definition validate_file :: "env \<Rightarrow> world \<Rightarrow> string \<Rightarrow> upload \<Rightarrow> (exn + response) \<times> world" where
  "validate_file env w doc_type file =
     (let (r, w') =
        (case map_of DOCUMENT_KEYWORDS doc_type of
           None \<Rightarrow> (Inl (HTTPException 400 ''Unsupported document type''), w)
         | Some keywords \<Rightarrow>
            (case process_file env w file of
               (Inl e, w1) \<Rightarrow> (Inl e, w1)
             | (Inr raw_text, w1) \<Rightarrow>
                 let normalized_text = normalize_text raw_text;
                     found_keyword = find (\<lambda>kw. sublist kw normalized_text) keywords
                 in (Inr \<lparr>is_valid = truthy found_keyword,
                          message = (if truthy found_keyword then detected (the found_keyword)
                                     else ''No expected keyword found.''),
                          debug_text_snippet = take 1000 normalized_text\<rparr>, w1)))
      in (case r of
            Inl e \<Rightarrow> (Inl (HTTPException 500 (str_exn env e)), w')
          | Inr resp \<Rightarrow> (Inr resp, w')))"

section \<open>Notions used to state the properties\<close>

text \<open>The world once the upload has been written to the temporary file \<open>p\<close>.\<close>

definition staged :: "world \<Rightarrow> path \<Rightarrow> bytes \<Rightarrow> world" where
  "staged w p b = log_event (TempCreated p) (w\<lparr>files := (files w)(p \<mapsto> b)\<rparr>)"

definition new_events :: "world \<Rightarrow> world \<Rightarrow> event list" where
  \<comment> \<open>the events logged between two worlds\<close>
  "new_events w w' = drop (length (trace w)) (trace w')"

text \<open>
  The text of one page as the specification words it: the embedded text when it is not
  empty, otherwise the OCR of the page rasterised at 300 DPI.
\<close>

definition page_text_of :: "env \<Rightarrow> page \<Rightarrow> exn + string" where
  "page_text_of env pg =
     (case extract_text pg of Inl e \<Rightarrow> Inl e
      | Inr t \<Rightarrow> if t \<noteq> None \<and> t \<noteq> Some [] then Inr (the t)
                 else image_to_string env (to_image pg 300))"

definition with_newlines :: "string list \<Rightarrow> string" where
  \<comment> \<open>the texts in order, each followed by a newline\<close>
  "with_newlines ts = concat (map (\<lambda>t. t @ [CHR 0x0A]) ts)"


text \<open>
  A text contains a keyword up to case and whitespace: somewhere in the text, each space of
  the keyword is matched by a non-empty run of whitespace and every other character by a
  character that is equal to it up to case.
\<close>

fun loose_prefix :: "string \<Rightarrow> string \<Rightarrow> bool" where
  "loose_prefix [] s = True"
| "loose_prefix (k # ks) [] = False"
| "loose_prefix (k # ks) (c # cs) =
     (if k = CHR '' '' then isspace c \<and> loose_prefix ks (dropWhile isspace cs)
      else char_lower c = char_lower k \<and> loose_prefix ks cs)"

fun contains_loosely :: "string \<Rightarrow> string \<Rightarrow> bool" where
  "contains_loosely [] k = loose_prefix k []"
| "contains_loosely (c # cs) k = (loose_prefix k (c # cs) \<or> contains_loosely cs k)"

section \<open>A stub environment for concrete runs\<close>

text \<open>
  A small environment on which the definitions evaluate: the OCR stub reads the image's bytes
  back as text (and fails on \<open>unreadable\<close>), an empty file is not an image, and the PDF
  parser's answer is a parameter. A temporary file name of more than 255 characters is
  refused, as a file system does. Two variants: a full disk, on which nothing of the upload
  can be written, and a file system that refuses to remove files.
\<close>

definition stub_page :: "string option \<Rightarrow> bytes \<Rightarrow> page" where
  "stub_page t scan =
     \<lparr>extract_text = Inr t,
      to_image = (\<lambda>r. \<lparr>width = r, height = r, mode = ''RGB'', data = scan\<rparr>)\<rparr>"

definition stub_env :: "(exn + page list) \<Rightarrow> env" where
  "stub_env pdf =
     \<lparr>temp_name = (\<lambda>fs name. if 255 < length (''tmp0_'' @ name)
                              then Inl (Error ''File name too long'')
                              else Inr (''/tmp/tmp0_'' @ name)),
      write_upload = (\<lambda>p b. None),
      remove_file = (\<lambda>p. None),
      image_open = (\<lambda>b. if b = [] then Inl (Error ''cannot identify image file'')
                         else Inr \<lparr>width = 1, height = 1, mode = ''RGB'', data = b\<rparr>),
      convert = (\<lambda>img m. img\<lparr>mode := m\<rparr>),
      autocontrast = (\<lambda>img. img),
      resize = (\<lambda>img (w, h). img\<lparr>width := w, height := h\<rparr>),
      image_to_string = (\<lambda>img. if data img = ''unreadable'' then Inl (Error ''tesseract failed'')
                              else Inr (data img)),
      pdf_open = (\<lambda>b. pdf),
      str_exn = (\<lambda>e. case e of HTTPException c d \<Rightarrow> d | Error m \<Rightarrow> m)\<rparr>"

definition full_disk_env :: env where
  "full_disk_env =
     (stub_env (Inr []))\<lparr>write_upload := (\<lambda>p b. Some (Error ''No space left on device'', []))\<rparr>"

definition sticky_env :: env where
  "sticky_env = (stub_env (Inr []))\<lparr>remove_file := (\<lambda>p. Some (Error ''Permission denied''))\<rparr>"

definition empty_world :: world where
  "empty_world = \<lparr>files = Map.empty, trace = []\<rparr>"

definition passport_scan :: upload where
  "passport_scan =
     \<lparr>filename = ''scan.PNG'', content = ''Republic of the   Philippines PASSPORT''\<rparr>"

definition notes_txt :: upload where
  "notes_txt = \<lparr>filename = ''notes.txt'', content = ''passport''\<rparr>"



definition blank_jpeg :: upload where
  "blank_jpeg = \<lparr>filename = ''blank.jpeg'', content = []\<rparr>"

definition umid_scan :: upload where
  "umid_scan = \<lparr>filename = ''card.jpg'', content = ''SSS / GSIS''\<rparr>"

definition three_pages :: "page list" where
  "three_pages = [stub_page (Some ''BIR FORM 2303'') ''cover'', stub_page None ''scan two'',
                  stub_page (Some []) ''scan three'']"

definition smudged_pages :: "page list" where
  "smudged_pages = [stub_page (Some ''BIR FORM 2303'') ''cover'', stub_page None ''unreadable'',
                    stub_page (Some ''last'') ''scan three'']"

definition pdf_world :: world where
  "pdf_world = \<lparr>files = [''/tmp/report.pdf'' \<mapsto> ''%PDF-1.7''], trace = []\<rparr>"

section \<open>Normalisation\<close>

lemma isspace_char_lower: "isspace (char_lower c) = isspace c"
  unfolding isspace_def char_lower_def Let_def by simp

lemma char_lower_idem: "char_lower (char_lower c) = char_lower c"
  unfolding char_lower_def Let_def by simp

lemma char_lower_space: "char_lower (CHR '' '') = CHR '' ''"
  unfolding char_lower_def Let_def by simp

lemma isspace_space: "isspace (CHR '' '')"
  unfolding isspace_def Let_def by simp

lemma dropWhile_isspace_lower:
  "dropWhile isspace (map char_lower cs) = map char_lower (dropWhile isspace cs)"
  by (induction cs) (simp_all add: isspace_char_lower)

lemma sub_spaces_lower: "sub_spaces (map char_lower cs) = map char_lower (sub_spaces cs)"
  by (induction cs rule: sub_spaces.induct)
    (simp_all add: isspace_char_lower char_lower_space dropWhile_isspace_lower)

text \<open>A string that does not begin with whitespace keeps that property when collapsed.\<close>

lemma dropWhile_sub_spaces:
  "cs = [] \<or> \<not> isspace (hd cs) \<Longrightarrow> dropWhile isspace (sub_spaces cs) = sub_spaces cs"
  by (cases cs) auto

lemma dropWhile_no_lead: "dropWhile isspace cs = [] \<or> \<not> isspace (hd (dropWhile isspace cs))"
  by (metis hd_dropWhile)

lemma sub_spaces_idem: "sub_spaces (sub_spaces cs) = sub_spaces cs"
proof (induction cs rule: sub_spaces.induct)
  case 1
  show ?case by simp
next
  case (2 c cs)
  show ?case
  proof (cases "isspace c")
    case True
    have "dropWhile isspace (sub_spaces (dropWhile isspace cs)) = sub_spaces (dropWhile isspace cs)"
      using dropWhile_no_lead by (rule dropWhile_sub_spaces)
    with True 2 show ?thesis by (simp add: isspace_space)
  next
    case False
    with 2 show ?thesis by simp
  qed
qed

text \<open>
  C8. Text normalisation is idempotent: normalising a normalised text returns it unchanged,
  for every string.
\<close>

theorem normalize_text_idempotent: "normalize_text (normalize_text s) = normalize_text s"
proof -
  have "sub_spaces (map char_lower (sub_spaces s)) = map char_lower (sub_spaces s)"
    by (simp add: sub_spaces_lower sub_spaces_idem)
  then show ?thesis
    by (simp add: normalize_text_def lower_def char_lower_idem)
qed

section \<open>The registry keywords\<close>

lemma registry_keywords:
  "map_of DOCUMENT_KEYWORDS t = Some kws \<Longrightarrow> k \<in> set kws \<Longrightarrow> k \<in> set all_keywords"
  unfolding all_keywords_def by (force dest: map_of_SomeD)

lemma all_keywords_nonempty: "\<forall>k\<in>set all_keywords. k \<noteq> []"
  by code_simp

lemma all_keywords_lower: "\<forall>k\<in>set all_keywords. lower k = k"
  by code_simp

lemma all_keywords_spaces: "\<forall>k\<in>set all_keywords. sub_spaces k = k"
  by code_simp

lemma all_keywords_blanks: "\<forall>k\<in>set all_keywords. \<forall>c\<in>set k. isspace c \<longrightarrow> c = CHR '' ''"
  by code_simp

lemma all_keywords_head: "\<forall>k\<in>set all_keywords. hd k \<noteq> CHR '' ''"
  by code_simp

lemma passport_registered:
  "map_of DOCUMENT_KEYWORDS ''passport'' =
     Some [''passport'', ''republic of the philippines passport'']"
  by code_simp

lemma umid_registered:
  "map_of DOCUMENT_KEYWORDS ''sss-gsis-umid'' =
     Some [''unified multi-purpose id'', ''multi-purpose'', ''pambansang pagkakakilanlan'',
           ''philippine identification card'', ''gsis'', ''sss'']"
  by code_simp

text \<open>
  C10. Every keyword of the registry is a fixed point of \<open>normalize_text\<close>: it is entirely
  lower case (\<open>lower\<close> leaves it unchanged) and each of its whitespace runs is one space
  (\<open>sub_spaces\<close> leaves it unchanged). Hence looking for the keyword in a normalised text
  is the same test as looking for its normalised form.
\<close>

theorem registry_keywords_fixed_points:
  assumes "map_of DOCUMENT_KEYWORDS t = Some kws" and "k \<in> set kws"
  shows "normalize_text k = k \<and> lower k = k \<and> sub_spaces k = k \<and>
         (\<forall>s. sublist k (normalize_text s) = sublist (normalize_text k) (normalize_text s))"
proof -
  have k: "k \<in> set all_keywords" using assms by (rule registry_keywords)
  then have "lower k = k" "sub_spaces k = k"
    using all_keywords_lower all_keywords_spaces by blast+
  then show ?thesis by (simp add: normalize_text_def)
qed

theorem registry_keywords_fixed_points_witness:
  "map_of DOCUMENT_KEYWORDS ''passport'' =
     Some [''passport'', ''republic of the philippines passport''] \<and>
   normalize_text ''republic of the philippines passport'' =
     ''republic of the philippines passport''"
proof -
  have "''republic of the philippines passport'' \<in>
          set [''passport'', ''republic of the philippines passport'']"
    by simp
  from registry_keywords_fixed_points [OF passport_registered this] passport_registered
  show ?thesis by blast
qed

section \<open>The request handler, case by case\<close>

lemma validate_file_unregistered:
  "map_of DOCUMENT_KEYWORDS t = None \<Longrightarrow>
   validate_file env w t file =
     (Inl (HTTPException 500 (str_exn env (HTTPException 400 ''Unsupported document type''))), w)"
  by (simp add: validate_file_def)

lemma validate_file_failure:
  "map_of DOCUMENT_KEYWORDS t = Some kws \<Longrightarrow> process_file env w file = (Inl e, w') \<Longrightarrow>
   validate_file env w t file = (Inl (HTTPException 500 (str_exn env e)), w')"
  by (simp add: validate_file_def)

lemma validate_file_success:
  "map_of DOCUMENT_KEYWORDS t = Some kws \<Longrightarrow> process_file env w file = (Inr raw, w') \<Longrightarrow>
   validate_file env w t file =
     (Inr \<lparr>is_valid = truthy (find (\<lambda>kw. sublist kw (normalize_text raw)) kws),
           message = (if truthy (find (\<lambda>kw. sublist kw (normalize_text raw)) kws)
                      then detected (the (find (\<lambda>kw. sublist kw (normalize_text raw)) kws))
                      else ''No expected keyword found.''),
           debug_text_snippet = take 1000 (normalize_text raw)\<rparr>, w')"
  by (simp add: validate_file_def Let_def)

lemma validate_file_Inr_cases:
  assumes "validate_file env w t file = (Inr resp, w')"
  obtains kws raw where "map_of DOCUMENT_KEYWORDS t = Some kws"
    and "process_file env w file = (Inr raw, w')"
proof (cases "map_of DOCUMENT_KEYWORDS t")
  case None
  with assms show ?thesis by (simp add: validate_file_unregistered)
next
  case (Some kws)
  obtain r w1 where pf: "process_file env w file = (r, w1)" by (cases "process_file env w file")
  show ?thesis
  proof (cases r)
    case (Inl e)
    with Some pf assms show ?thesis by (simp add: validate_file_failure)
  next
    case (Inr raw)
    with Some pf assms have "w1 = w'" by (simp add: validate_file_success)
    with Some pf Inr that show ?thesis by simp
  qed
qed

text \<open>Whatever fails, the handler's \<open>except Exception\<close> answers with status 500.\<close>

lemma validate_file_error_status:
  assumes "validate_file env w t file = (Inl e, w')"
  shows "\<exists>d. e = HTTPException 500 d"
proof (cases "map_of DOCUMENT_KEYWORDS t")
  case None
  with assms show ?thesis by (auto simp add: validate_file_unregistered)
next
  case (Some kws)
  obtain r w1 where pf: "process_file env w file = (r, w1)" by (cases "process_file env w file")
  with Some assms show ?thesis
    by (cases r) (auto simp add: validate_file_failure validate_file_success)
qed

lemma passport_scan_text:
  "process_file (stub_env (Inr [])) empty_world passport_scan =
     (Inr ''Republic of the   Philippines PASSPORT'',
      snd (process_file (stub_env (Inr [])) empty_world passport_scan))"
proof (rule prod_eqI)
  show "fst (process_file (stub_env (Inr [])) empty_world passport_scan) =
        fst (Inr ''Republic of the   Philippines PASSPORT'',
             snd (process_file (stub_env (Inr [])) empty_world passport_scan))"
    by code_simp
qed simp

lemma passport_scan_response:
  "fst (validate_file (stub_env (Inr [])) empty_world ''passport'' passport_scan) =
     Inr \<lparr>is_valid = True, message = detected ''passport'',
          debug_text_snippet = ''republic of the philippines passport''\<rparr>"
  by code_simp

text \<open>
  C1 (the code departs from the claim). An unsupported document type and an unsupported
  file extension are both raised as \<open>HTTPException(status_code=400)\<close>, inside the
  \<open>try\<close> whose \<open>except Exception\<close> turns every exception into status 500: the caller
  receives the server-error status, not the client-error one.
\<close>

theorem unsupported_requests_answer_500:
  "fst (validate_file (stub_env (Inr [])) empty_world ''voter-id'' passport_scan) =
     Inl (HTTPException 500 ''Unsupported document type'') \<and>
   fst (validate_file (stub_env (Inr [])) empty_world ''passport'' notes_txt) =
     Inl (HTTPException 500 ''Unsupported file format'')"
  by code_simp

text \<open>
  C2. For a registered type and any extracted text, the keywords are scanned in their order
  and the first one that is a substring of the normalised text is selected: either some
  keyword at index \<open>i\<close> occurs and none before it does, the response is valid and its
  message is that keyword in double quotes followed by \<open> detected.\<close>; or no keyword
  occurs, the response is not valid and carries the fixed message.
\<close>

theorem validate_file_first_keyword:
  assumes reg: "map_of DOCUMENT_KEYWORDS t = Some kws"
    and pf: "process_file env w file = (Inr raw, w')"
  shows "\<exists>resp. validate_file env w t file = (Inr resp, w') \<and>
     ((\<exists>i<length kws. sublist (kws ! i) (normalize_text raw) \<and>
           (\<forall>j<i. \<not> sublist (kws ! j) (normalize_text raw)) \<and>
           is_valid resp \<and>
           message resp = [CHR 0x22] @ kws ! i @ [CHR 0x22] @ '' detected.'') \<or>
      ((\<forall>kw\<in>set kws. \<not> sublist kw (normalize_text raw)) \<and>
           \<not> is_valid resp \<and> message resp = ''No expected keyword found.''))"
proof (cases "find (\<lambda>kw. sublist kw (normalize_text raw)) kws")
  case None
  then have "\<forall>kw\<in>set kws. \<not> sublist kw (normalize_text raw)"
    by (simp add: find_None_iff)
  with None show ?thesis
    by (simp add: validate_file_success [OF reg pf] truthy_def)
next
  case (Some kw)
  then obtain i where i: "i < length kws" "sublist (kws ! i) (normalize_text raw)"
      "kw = kws ! i" "\<forall>j<i. \<not> sublist (kws ! j) (normalize_text raw)"
    unfolding find_Some_iff by blast
  then have "kw \<in> set kws" by simp
  then have "kw \<noteq> []"
    using registry_keywords [OF reg] all_keywords_nonempty by blast
  with Some i show ?thesis
    by (auto simp add: validate_file_success [OF reg pf] truthy_def detected_def)
qed

theorem validate_file_first_keyword_witness:
  "\<exists>resp w'. process_file (stub_env (Inr [])) empty_world passport_scan =
                (Inr ''Republic of the   Philippines PASSPORT'', w') \<and>
     validate_file (stub_env (Inr [])) empty_world ''passport'' passport_scan = (Inr resp, w') \<and>
     is_valid resp \<and> message resp = [CHR 0x22] @ ''passport'' @ [CHR 0x22] @ '' detected.''"
proof -
  from validate_file_first_keyword [OF passport_registered passport_scan_text]
  obtain resp where v: "validate_file (stub_env (Inr [])) empty_world ''passport'' passport_scan =
      (Inr resp, snd (process_file (stub_env (Inr [])) empty_world passport_scan))"
    by blast
  with passport_scan_response
  have "is_valid resp \<and> message resp = [CHR 0x22] @ ''passport'' @ [CHR 0x22] @ '' detected.''"
    by (simp add: detected_def)
  with v passport_scan_text show ?thesis by blast
qed

text \<open>
  C9. Whenever a response is produced, its \<open>debug_text_snippet\<close> is the first 1000
  characters of the normalised extracted text, so it is at most 1000 characters long.
\<close>

theorem debug_text_snippet_bound:
  assumes "validate_file env w t file = (Inr resp, w')"
  shows "\<exists>raw. process_file env w file = (Inr raw, w') \<and>
           debug_text_snippet resp = take 1000 (normalize_text raw) \<and>
           length (debug_text_snippet resp) \<le> 1000"
proof -
  from assms obtain kws raw where reg: "map_of DOCUMENT_KEYWORDS t = Some kws"
    and pf: "process_file env w file = (Inr raw, w')"
    by (rule validate_file_Inr_cases)
  from assms have "debug_text_snippet resp = take 1000 (normalize_text raw)"
    unfolding validate_file_success [OF reg pf] by auto
  with pf show ?thesis by auto
qed

theorem debug_text_snippet_bound_witness:
  "\<exists>resp w'. validate_file (stub_env (Inr [])) empty_world ''passport'' passport_scan =
       (Inr resp, w') \<and>
     debug_text_snippet resp = ''republic of the philippines passport'' \<and>
     length (debug_text_snippet resp) \<le> 1000"
proof -
  have v: "validate_file (stub_env (Inr [])) empty_world ''passport'' passport_scan =
      (Inr \<lparr>is_valid = True, message = detected ''passport'',
            debug_text_snippet = ''republic of the philippines passport''\<rparr>,
       snd (validate_file (stub_env (Inr [])) empty_world ''passport'' passport_scan))"
    using passport_scan_response by (simp add: prod_eq_iff)
  from debug_text_snippet_bound [OF v] show ?thesis using v by auto
qed

text \<open>
  C6. A request whose declared type is not a key of the registry is rejected before any
  extraction work: the world is returned as it was, so no temporary file is written and the
  events logged by the request (none) contain neither an image nor a PDF extraction.
\<close>

theorem unregistered_type_no_extraction:
  assumes "map_of DOCUMENT_KEYWORDS t = None"
  shows "(\<exists>d. fst (validate_file env w t file) = Inl (HTTPException 500 d)) \<and>
         snd (validate_file env w t file) = w \<and>
         (\<forall>p. ImageExtraction p \<notin> set (drop (length (trace w)) (trace (snd (validate_file env w t file)))) \<and>
              PdfExtraction p \<notin> set (drop (length (trace w)) (trace (snd (validate_file env w t file)))))"
  using assms by (simp add: validate_file_unregistered)

theorem unregistered_type_no_extraction_witness:
  "map_of DOCUMENT_KEYWORDS ''voter-id'' = None \<and>
   snd (validate_file (stub_env (Inr [])) empty_world ''voter-id'' passport_scan) = empty_world"
proof -
  have h: "map_of DOCUMENT_KEYWORDS ''voter-id'' = None" by code_simp
  from unregistered_type_no_extraction [OF h] h show ?thesis by blast
qed

section \<open>Keywords up to case and whitespace\<close>

lemma contains_loosely_split:
  "contains_loosely s k \<Longrightarrow> \<exists>pre post. s = pre @ post \<and> loose_prefix k post"
proof (induction s)
  case Nil
  then show ?case by simp
next
  case (Cons c cs)
  show ?case
  proof (cases "loose_prefix k (c # cs)")
    case True
    then show ?thesis by (metis append_Nil)
  next
    case False
    with Cons obtain pre post where "cs = pre @ post" "loose_prefix k post" by auto
    then show ?thesis by (metis append_Cons)
  qed
qed

lemma normalize_text_Cons_space:
  "isspace c \<Longrightarrow> normalize_text (c # cs) = CHR '' '' # normalize_text (dropWhile isspace cs)"
  by (simp add: normalize_text_def lower_def char_lower_space)

lemma normalize_text_Cons_other:
  "\<not> isspace c \<Longrightarrow> normalize_text (c # cs) = char_lower c # normalize_text cs"
  by (simp add: normalize_text_def lower_def)

lemma loose_prefix_normalized:
  assumes "\<forall>c\<in>set k. isspace c \<longrightarrow> c = CHR '' ''" and "lower k = k"
    and "loose_prefix k s"
  shows "prefix k (normalize_text s)"
  using assms
proof (induction k s rule: loose_prefix.induct)
  case (1 s)
  show ?case by simp
next
  case (2 k ks)
  then show ?case by simp
next
  case (3 k ks c cs)
  from "3.prems" have ks: "\<forall>c\<in>set ks. isspace c \<longrightarrow> c = CHR '' ''" "lower ks = ks"
    and lk: "char_lower k = k"
    by (simp_all add: lower_def)
  show ?case
  proof (cases "k = CHR '' ''")
    case True
    with "3.prems" have sp: "isspace c" and rest: "loose_prefix ks (dropWhile isspace cs)"
      by simp_all
    from "3.IH"(1) [OF True ks rest] True sp show ?thesis
      by (simp add: normalize_text_Cons_space)
  next
    case False
    with "3.prems" have eq: "char_lower c = k" and rest: "loose_prefix ks cs"
      by (simp_all add: lk)
    from False "3.prems"(1) have "\<not> isspace k" by auto
    with eq have "\<not> isspace c" using isspace_char_lower by metis
    with "3.IH"(2) [OF False ks rest] eq show ?thesis
      by (simp add: normalize_text_Cons_other)
  qed
qed

lemma sub_spaces_append:
  "\<not> isspace c \<Longrightarrow> sub_spaces (pre @ c # cs) = sub_spaces pre @ sub_spaces (c # cs)"
proof (induction pre rule: sub_spaces.induct)
  case 1
  show ?case by simp
next
  case (2 d ds)
  show ?case
  proof (cases "isspace d")
    case True
    have "dropWhile isspace (ds @ c # cs) = dropWhile isspace ds @ c # cs"
      using "2.prems" by (induction ds) simp_all
    with True 2 show ?thesis by simp
  next
    case False
    with 2 show ?thesis by simp
  qed
qed

lemma contains_loosely_sublist:
  assumes k: "k \<in> set all_keywords" and c: "contains_loosely s k"
  shows "sublist k (normalize_text s)"
proof -
  from c obtain pre post where s: "s = pre @ post" and lp: "loose_prefix k post"
    using contains_loosely_split by blast
  from k have ne: "k \<noteq> []" and hd: "hd k \<noteq> CHR '' ''"
    and bl: "\<forall>c\<in>set k. isspace c \<longrightarrow> c = CHR '' ''" and lo: "lower k = k"
    using all_keywords_nonempty all_keywords_head all_keywords_blanks all_keywords_lower
    by blast+
  from ne obtain x xs where kx: "k = x # xs" by (cases k) auto
  with lp obtain d ds where post: "post = d # ds" by (cases post) auto
  from kx hd have x: "x \<noteq> CHR '' ''" by simp
  with bl kx have nx: "\<not> isspace x" by auto
  from lo kx have "char_lower x = x" by (simp add: lower_def)
  with lp kx post x have "char_lower d = x" by simp
  with nx have nd: "\<not> isspace d" using isspace_char_lower by metis
  have "normalize_text s = normalize_text pre @ normalize_text post"
    unfolding s post normalize_text_def lower_def
    by (simp only: sub_spaces_append [OF nd] map_append)
  moreover have "prefix k (normalize_text post)"
    using bl lo lp by (rule loose_prefix_normalized)
  ultimately show ?thesis
    by (metis prefix_def sublist_appendI)
qed

lemma umid_scan_text:
  "process_file (stub_env (Inr [])) empty_world umid_scan =
     (Inr ''SSS / GSIS'', snd (process_file (stub_env (Inr [])) empty_world umid_scan))"
proof (rule prod_eqI)
  show "fst (process_file (stub_env (Inr [])) empty_world umid_scan) =
        fst (Inr ''SSS / GSIS'', snd (process_file (stub_env (Inr [])) empty_world umid_scan))"
    by code_simp
qed simp

text \<open>
  C3, as stated, fails: a text may contain a keyword of the type (here \<open>sss\<close>, up to case)
  while the message names another keyword, the one that comes first in the list among
  those found (here \<open>gsis\<close>); the message does not mention \<open>sss\<close> at all.
\<close>

theorem message_names_other_keyword:
  "''sss'' \<in> set (the (map_of DOCUMENT_KEYWORDS ''sss-gsis-umid'')) \<and>
   contains_loosely ''SSS / GSIS'' ''sss'' \<and>
   fst (process_file (stub_env (Inr [])) empty_world umid_scan) = Inr ''SSS / GSIS'' \<and>
   fst (validate_file (stub_env (Inr [])) empty_world ''sss-gsis-umid'' umid_scan) =
     Inr \<lparr>is_valid = True, message = detected ''gsis'', debug_text_snippet = ''sss / gsis''\<rparr> \<and>
   detected ''gsis'' \<noteq> detected ''sss'' \<and>
   \<not> sublist ''sss'' (detected ''gsis'')"
  by code_simp

text \<open>
  C3, amended. For a registered type and an extracted text that contains one of its keywords
  up to case and whitespace runs, the response is valid and the message names the first
  keyword of the list that occurs in the normalised text, which is the contained keyword or
  one listed before it.
\<close>

theorem loosely_contained_keyword_validates:
  assumes reg: "map_of DOCUMENT_KEYWORDS t = Some kws"
    and k: "k \<in> set kws"
    and c: "contains_loosely raw k"
    and pf: "process_file env w file = (Inr raw, w')"
  shows "\<exists>resp i n. validate_file env w t file = (Inr resp, w') \<and> is_valid resp \<and>
           i \<le> n \<and> n < length kws \<and> kws ! n = k \<and>
           message resp = detected (kws ! i) \<and>
           sublist (kws ! i) (normalize_text raw) \<and>
           (\<forall>j<i. \<not> sublist (kws ! j) (normalize_text raw))"
proof -
  have sub: "sublist k (normalize_text raw)"
    using registry_keywords [OF reg k] c by (rule contains_loosely_sublist)
  from k obtain n where n: "n < length kws" "kws ! n = k"
    by (auto simp: in_set_conv_nth)
  from k sub obtain kw where f: "find (\<lambda>kw. sublist kw (normalize_text raw)) kws = Some kw"
    by (cases "find (\<lambda>kw. sublist kw (normalize_text raw)) kws") (auto simp: find_None_iff)
  then obtain i where i: "i < length kws" "sublist (kws ! i) (normalize_text raw)"
      "kw = kws ! i" "\<forall>j<i. \<not> sublist (kws ! j) (normalize_text raw)"
    unfolding find_Some_iff by blast
  from i(4) n sub have "i \<le> n" by (metis not_le)
  moreover from i have "kw \<in> set kws" by simp
  then have "kw \<noteq> []"
    using registry_keywords [OF reg] all_keywords_nonempty by blast
  ultimately show ?thesis using f i n
    by (auto simp add: validate_file_success [OF reg pf] truthy_def)
qed

theorem loosely_contained_keyword_validates_witness:
  "\<exists>resp w'. validate_file (stub_env (Inr [])) empty_world ''sss-gsis-umid'' umid_scan = (Inr resp, w') \<and>
     is_valid resp \<and> message resp = detected ''gsis''"
proof -
  have k: "''sss'' \<in> set [''unified multi-purpose id'', ''multi-purpose'', ''pambansang pagkakakilanlan'',
           ''philippine identification card'', ''gsis'', ''sss'']"
    by simp
  have c: "contains_loosely ''SSS / GSIS'' ''sss''" by code_simp
  from loosely_contained_keyword_validates [OF umid_registered k c umid_scan_text]
  obtain resp where v: "validate_file (stub_env (Inr [])) empty_world ''sss-gsis-umid'' umid_scan =
      (Inr resp, snd (process_file (stub_env (Inr [])) empty_world umid_scan))"
    and "is_valid resp"
    by blast
  moreover have "fst (validate_file (stub_env (Inr [])) empty_world ''sss-gsis-umid'' umid_scan) =
     Inr \<lparr>is_valid = True, message = detected ''gsis'', debug_text_snippet = ''sss / gsis''\<rparr>"
    by code_simp
  ultimately show ?thesis by auto
qed

section \<open>The PDF extractor\<close>

lemma pdf_pages_loop_step_ok:
  "page_text_of env pg = Inr t \<Longrightarrow>
   pdf_pages_loop env acc (pg # pages) = pdf_pages_loop env (acc @ t @ [CHR 0x0A]) pages"
  by (auto simp: page_text_of_def split: sum.splits option.splits list.splits if_splits)

lemma pdf_pages_loop_step_fail:
  "page_text_of env pg = Inl e \<Longrightarrow> pdf_pages_loop env acc (pg # pages) = Inl e"
  by (auto simp: page_text_of_def split: sum.splits option.splits list.splits if_splits)

lemma pdf_pages_loop_ok:
  "map (page_text_of env) pages = map Inr ts \<Longrightarrow>
   pdf_pages_loop env acc pages = Inr (acc @ with_newlines ts)"
proof (induction pages arbitrary: acc ts)
  case Nil
  then show ?case by (simp add: with_newlines_def)
next
  case (Cons pg pages)
  then obtain t ts' where ts: "ts = t # ts'" "page_text_of env pg = Inr t"
      "map (page_text_of env) pages = map Inr ts'"
    by (cases ts) auto
  with Cons.IH [OF ts(3)] show ?case
    by (simp add: pdf_pages_loop_step_ok with_newlines_def del: pdf_pages_loop.simps)
qed

lemma pdf_pages_loop_fail:
  "map (page_text_of env) ps = map Inr ts \<Longrightarrow> page_text_of env pg = Inl e \<Longrightarrow>
   pdf_pages_loop env acc (ps @ pg # rest) = Inl e"
proof (induction ps arbitrary: acc ts)
  case Nil
  then show ?case by (simp add: pdf_pages_loop_step_fail del: pdf_pages_loop.simps)
next
  case (Cons p ps)
  then obtain t ts' where ts: "ts = t # ts'" "page_text_of env p = Inr t"
      "map (page_text_of env) ps = map Inr ts'"
    by (cases ts) auto
  with Cons.IH [OF ts(3) Cons.prems(2)] show ?case
    by (simp add: pdf_pages_loop_step_ok del: pdf_pages_loop.simps)
qed

lemma extract_text_from_pdf_pages:
  "files w p = Some b \<Longrightarrow> pdf_open env b = Inr pages \<Longrightarrow>
   extract_text_from_pdf env w p = (pdf_pages_loop env [] pages, log_event (PdfExtraction p) w)"
  by (simp add: extract_text_from_pdf_def read_file_def log_event_def Let_def)

text \<open>
  C4. The PDF extractor goes through the pages in document order. When every page yields a
  text (its embedded text if that is not empty, otherwise the OCR of the page rasterised at
  300 DPI), the result is these texts in page order, each followed by a newline. When a page
  fails after pages that succeeded, the extraction fails with that page's error.
\<close>

theorem pdf_text_in_page_order:
  assumes "files w p = Some b" and "pdf_open env b = Inr pages"
  shows "(\<forall>ts. map (page_text_of env) pages = map Inr ts \<longrightarrow>
            fst (extract_text_from_pdf env w p) = Inr (with_newlines ts)) \<and>
         (\<forall>ps pg rest ts e. pages = ps @ pg # rest \<and> map (page_text_of env) ps = map Inr ts \<and>
              page_text_of env pg = Inl e \<longrightarrow>
            fst (extract_text_from_pdf env w p) = Inl e)"
  using assms
  by (auto simp add: extract_text_from_pdf_pages pdf_pages_loop_ok pdf_pages_loop_fail)

theorem pdf_text_in_page_order_witness:
  "fst (extract_text_from_pdf (stub_env (Inr three_pages)) pdf_world ''/tmp/report.pdf'') =
     Inr (''BIR FORM 2303'' @ [CHR 0x0A] @ ''scan two'' @ [CHR 0x0A] @ ''scan three'' @ [CHR 0x0A]) \<and>
   fst (extract_text_from_pdf (stub_env (Inr smudged_pages)) pdf_world ''/tmp/report.pdf'') =
     Inl (Error ''tesseract failed'')"
proof -
  have f: "files pdf_world ''/tmp/report.pdf'' = Some ''%PDF-1.7''"
    by (simp add: pdf_world_def)
  have o3: "pdf_open (stub_env (Inr three_pages)) ''%PDF-1.7'' = Inr three_pages"
    by (simp add: stub_env_def)
  have os: "pdf_open (stub_env (Inr smudged_pages)) ''%PDF-1.7'' = Inr smudged_pages"
    by (simp add: stub_env_def)
  have t3: "map (page_text_of (stub_env (Inr three_pages))) three_pages =
            map Inr [''BIR FORM 2303'', ''scan two'', ''scan three'']"
    by code_simp
  have n3: "with_newlines [''BIR FORM 2303'', ''scan two'', ''scan three''] =
     ''BIR FORM 2303'' @ [CHR 0x0A] @ ''scan two'' @ [CHR 0x0A] @ ''scan three'' @ [CHR 0x0A]"
    by (simp add: with_newlines_def)
  have sp: "smudged_pages = [stub_page (Some ''BIR FORM 2303'') ''cover''] @
              stub_page None ''unreadable'' # [stub_page (Some ''last'') ''scan three'']"
    by (simp add: smudged_pages_def)
  have s1: "map (page_text_of (stub_env (Inr smudged_pages))) [stub_page (Some ''BIR FORM 2303'') ''cover''] =
            map Inr [''BIR FORM 2303'']"
    by code_simp
  have s2: "page_text_of (stub_env (Inr smudged_pages)) (stub_page None ''unreadable'') =
            Inl (Error ''tesseract failed'')"
    by code_simp
  from pdf_text_in_page_order [OF f o3] t3 n3
  have a: "fst (extract_text_from_pdf (stub_env (Inr three_pages)) pdf_world ''/tmp/report.pdf'') =
     Inr (''BIR FORM 2303'' @ [CHR 0x0A] @ ''scan two'' @ [CHR 0x0A] @ ''scan three'' @ [CHR 0x0A])"
    by metis
  from pdf_text_in_page_order [OF f os] sp s1 s2
  have b: "fst (extract_text_from_pdf (stub_env (Inr smudged_pages)) pdf_world ''/tmp/report.pdf'') =
     Inl (Error ''tesseract failed'')"
    by blast
  from a b show ?thesis by simp
qed

section \<open>The file dispatcher: routing and the temporary file\<close>



lemma extract_text_from_image_world:
  "snd (extract_text_from_image env w p) = log_event (ImageExtraction p) w"
  by (simp add: extract_text_from_image_def Let_def split: sum.splits)

lemma extract_text_from_pdf_world:
  "snd (extract_text_from_pdf env w p) = log_event (PdfExtraction p) w"
  by (simp add: extract_text_from_pdf_def Let_def split: sum.splits)



lemma staged_eq:
  "(log_event (TempCreated p) (w\<lparr>files := (files w)(p \<mapsto> [])\<rparr>))
     \<lparr>files := (files (log_event (TempCreated p) (w\<lparr>files := (files w)(p \<mapsto> [])\<rparr>)))(p \<mapsto> b)\<rparr> =
   staged w p b"
  by (simp add: staged_def log_event_def)

lemma process_file_written:
  assumes "temp_name env (files w) (filename file) = Inr p"
    and "write_upload env p (content file) = None"
    and "remove_file env p = None"
  shows "process_file env w file =
     (let (r, w2) =
        (if endswith (lower (filename file)) [''.png'', ''.jpg'', ''.jpeg'']
         then extract_text_from_image env (staged w p (content file)) p
         else if endswith (lower (filename file)) [''.pdf'']
         then extract_text_from_pdf env (staged w p (content file)) p
         else (Inl (HTTPException 400 ''Unsupported file format''), staged w p (content file)))
      in (r, log_event (TempRemoved p) (w2\<lparr>files := (files w2)(p := None)\<rparr>)))"
  using assms by (simp add: process_file_def Let_def staged_eq)

lemma process_file_image:
  assumes ok: "temp_name env (files w) (filename file) = Inr p"
      "write_upload env p (content file) = None" "remove_file env p = None"
    and img: "endswith (lower (filename file)) [''.png'', ''.jpg'', ''.jpeg'']"
  shows "process_file env w file =
     (fst (extract_text_from_image env (staged w p (content file)) p),
      log_event (TempRemoved p)
        (log_event (ImageExtraction p)
           (log_event (TempCreated p) (w\<lparr>files := (files w)(p := None)\<rparr>))))"
proof -
  obtain r w2 where x: "extract_text_from_image env (staged w p (content file)) p = (r, w2)"
    by (cases "extract_text_from_image env (staged w p (content file)) p")
  then have "w2 = log_event (ImageExtraction p) (staged w p (content file))"
    using extract_text_from_image_world [of env "staged w p (content file)" p] by simp
  with x img show ?thesis
    by (simp add: process_file_written [OF ok] staged_def log_event_def)
qed

lemma process_file_pdf:
  assumes ok: "temp_name env (files w) (filename file) = Inr p"
      "write_upload env p (content file) = None" "remove_file env p = None"
    and img: "\<not> endswith (lower (filename file)) [''.png'', ''.jpg'', ''.jpeg'']"
    and pdf: "endswith (lower (filename file)) [''.pdf'']"
  shows "process_file env w file =
     (fst (extract_text_from_pdf env (staged w p (content file)) p),
      log_event (TempRemoved p)
        (log_event (PdfExtraction p)
           (log_event (TempCreated p) (w\<lparr>files := (files w)(p := None)\<rparr>))))"
proof -
  obtain r w2 where x: "extract_text_from_pdf env (staged w p (content file)) p = (r, w2)"
    by (cases "extract_text_from_pdf env (staged w p (content file)) p")
  then have "w2 = log_event (PdfExtraction p) (staged w p (content file))"
    using extract_text_from_pdf_world [of env "staged w p (content file)" p] by simp
  with x img pdf show ?thesis
    by (simp add: process_file_written [OF ok] staged_def log_event_def)
qed

lemma process_file_other:
  assumes ok: "temp_name env (files w) (filename file) = Inr p"
      "write_upload env p (content file) = None" "remove_file env p = None"
    and img: "\<not> endswith (lower (filename file)) [''.png'', ''.jpg'', ''.jpeg'']"
    and pdf: "\<not> endswith (lower (filename file)) [''.pdf'']"
  shows "process_file env w file =
     (Inl (HTTPException 400 ''Unsupported file format''),
      log_event (TempRemoved p)
        (log_event (TempCreated p) (w\<lparr>files := (files w)(p := None)\<rparr>)))"
  using img pdf by (simp add: process_file_written [OF ok] staged_def log_event_def)

text \<open>The ways out of \<open>process_file\<close> that the \<open>finally\<close> does not cover or cannot mend.\<close>

lemma process_file_not_created:
  "temp_name env (files w) (filename file) = Inl e \<Longrightarrow> process_file env w file = (Inl e, w)"
  by (simp add: process_file_def)

lemma process_file_not_written:
  assumes "temp_name env (files w) (filename file) = Inr p"
    and "write_upload env p (content file) = Some (e, written)"
  shows "process_file env w file = (Inl e, staged w p written)"
  using assms by (simp add: process_file_def Let_def staged_eq)






text \<open>
  Once the upload has been written, the \<open>finally\<close> removes the temporary file exactly once
  on every way out of the \<open>try\<close>, provided \<open>os.remove\<close> itself succeeds.
\<close>

lemma process_file_world:
  assumes ok: "temp_name env (files w) (filename file) = Inr p"
      "write_upload env p (content file) = None" "remove_file env p = None"
  shows "\<exists>evs. snd (process_file env w file) =
     \<lparr>files = (files w)(p := None),
      trace = trace w @ TempCreated p # evs @ [TempRemoved p]\<rparr> \<and>
     set evs \<subseteq> {ImageExtraction p, PdfExtraction p}"
proof (cases "endswith (lower (filename file)) [''.png'', ''.jpg'', ''.jpeg'']")
  case True
  show ?thesis
    by (rule exI [of _ "[ImageExtraction p]"])
       (simp add: process_file_image [OF ok True] log_event_def)
next
  case img: False
  show ?thesis
  proof (cases "endswith (lower (filename file)) [''.pdf'']")
    case True
    show ?thesis
      by (rule exI [of _ "[PdfExtraction p]"])
         (simp add: process_file_pdf [OF ok img True] log_event_def)
  next
    case False
    show ?thesis
      by (rule exI [of _ "[]"]) (simp add: process_file_other [OF ok img False] log_event_def)
  qed
qed

lemma temp_file_removed_after_write:
  assumes ok: "temp_name env (files w) (filename file) = Inr p"
      "write_upload env p (content file) = None" "remove_file env p = None"
  shows "files (snd (process_file env w file)) = (files w)(p := None) \<and>
   files (snd (process_file env w file)) p = None \<and>
   length (filter (\<lambda>ev. ev = TempRemoved p) (new_events w (snd (process_file env w file)))) = 1 \<and>
   last (trace (snd (process_file env w file))) = TempRemoved p"
proof -
  obtain evs where w': "snd (process_file env w file) =
     \<lparr>files = (files w)(p := None),
      trace = trace w @ TempCreated p # evs @ [TempRemoved p]\<rparr>"
    and evs: "set evs \<subseteq> {ImageExtraction p, PdfExtraction p}"
    using process_file_world [OF ok] by blast
  from evs have "filter (\<lambda>ev. ev = TempRemoved p) evs = []"
    by (auto simp: filter_empty_conv)
  then show ?thesis by (simp add: w' new_events_def)
qed

text \<open>
  When \<open>os.remove\<close> raises in the \<open>finally\<close>, its exception replaces the result and
  the file stays.
\<close>

lemma remove_error_replaces_result:
  "fst (process_file sticky_env empty_world notes_txt) = Inl (Error ''Permission denied'') \<and>
   files (snd (process_file sticky_env empty_world notes_txt)) ''/tmp/tmp0_notes.txt'' =
     Some ''passport''"
  by code_simp

text \<open>
  C7 (the code departs from the claim). The temporary file is created with
  \<open>delete=False\<close> and written inside a \<open>with\<close> block that stands before the \<open>try\<close>. When
  the write fails (here: no space left), \<open>process_file\<close> is left before the \<open>try\<close> is
  entered: the \<open>finally\<close> never runs, no removal takes place, and the file is still on disk
  when the request has been answered.
\<close>

theorem temp_file_left_when_write_fails:
  "fst (process_file full_disk_env empty_world passport_scan) =
     Inl (Error ''No space left on device'') \<and>
   files (snd (process_file full_disk_env empty_world passport_scan)) ''/tmp/tmp0_scan.PNG'' =
     Some [] \<and>
   trace (snd (process_file full_disk_env empty_world passport_scan)) =
     [TempCreated ''/tmp/tmp0_scan.PNG''] \<and>
   fst (validate_file full_disk_env empty_world ''passport'' passport_scan) =
     Inl (HTTPException 500 ''No space left on device'') \<and>
   files (snd (validate_file full_disk_env empty_world ''passport'' passport_scan))
     ''/tmp/tmp0_scan.PNG'' = Some [] \<and>
   trace (snd (validate_file full_disk_env empty_world ''passport'' passport_scan)) =
     [TempCreated ''/tmp/tmp0_scan.PNG'']"
  by code_simp

end
